theory Spec2Isabelle
  imports Complex_Main
begin

section \<open>Bitnomon main window: series merge and request-chain scheduler\<close>

text \<open>
  A shallow embedding of \<^verbatim>\<open>src/main.py\<close>. Python numbers that the program treats as
  floats (ages, traffic averages, clock readings) are idealised as exact rationals;
  Python integers are \<open>int\<close>. \<open>None\<close> is \<open>None\<close> of an option type.
\<close>

subsection \<open>Collaborators that main.py imports\<close>

text \<open>
  Modelled from the spec: \<^verbatim>\<open>age.ageOfTime\<close> is imported by main.py and is not part of
  its text. The spec gives \<open>age(now, t) = now - t\<close>.
\<close>

definition ageOfTime :: "rat \<Rightarrow> rat \<Rightarrow> rat" where
  "ageOfTime now t = now - t"

text \<open>
  Modelled from the spec: \<^verbatim>\<open>rrdmodel.RRA\<close>, the fixed-capacity ring buffer, is imported
  by main.py and is not part of its text. The buffer is represented by its slots in index
  order: element \<open>i\<close> of the list is what \<^verbatim>\<open>rra[i]\<close> reads, an unfilled slot is
  \<open>None\<close>, and the length of the list is the capacity. The spec: a new buffer has all
  slots absent; logical index 0 is the most recently written sample and index \<open>i\<close> is
  \<open>i\<close> samples older; \<open>update\<close> appends and overwrites the oldest slot, with no failure
  mode; \<open>difference(i, j)\<close> is \<open>value[i] - value[j]\<close>, absent if either operand is absent
  or out of range; \<open>differences(start)\<close> yields \<open>value[k] - value[k+1]\<close> for \<open>k\<close> from
  \<open>start\<close> to \<open>capacity - 2\<close>. Reading an index outside the capacity finds no
  value.
\<close>

type_synonym 'a RRA = "'a option list"

definition RRA_new :: "nat \<Rightarrow> 'a RRA" where
  "RRA_new n = replicate n None"

definition RRA_update :: "'a \<Rightarrow> 'a RRA \<Rightarrow> 'a RRA" where
  "RRA_update v r = take (length r) (Some v # r)"

definition RRA_getitem :: "'a RRA \<Rightarrow> nat \<Rightarrow> 'a option" where
  "RRA_getitem r i = (if i < length r then r ! i else None)"

definition RRA_difference :: "rat RRA \<Rightarrow> nat \<Rightarrow> nat \<Rightarrow> rat option" where
  "RRA_difference r i j =
     (case RRA_getitem r i of
        None \<Rightarrow> None
      | Some a \<Rightarrow> (case RRA_getitem r j of None \<Rightarrow> None | Some b \<Rightarrow> Some (a - b)))"

definition RRA_differences :: "nat \<Rightarrow> rat RRA \<Rightarrow> rat option list" where
  "RRA_differences start r = map (\<lambda>k. RRA_difference r k (k + 1)) [start..<length r - 1]"

text \<open>
  The long-term archive \<^verbatim>\<open>rrdmodel.RRDModel\<close> is an external store. It is represented
  by the sequence of buckets that \<^verbatim>\<open>fetch_all()\<close> yields, in the order it yields them:
  a timestamp and the pair of averaged values, each possibly \<open>None\<close>.
\<close>

type_synonym bucket = "int \<times> (rat option \<times> rat option)"

subsection \<open>Errors\<close>

datatype error = KeyError string | NameError | TypeError | ZeroDivisionError

text \<open>The outcome of running a response handler: it returns, or it raises after the
  state changes it has already made.\<close>

datatype 's outcome = Returned 's | Raised error 's

fun state_of :: "'s outcome \<Rightarrow> 's" where
  "state_of (Returned s) = s"
| "state_of (Raised e s) = s"

subsection \<open>The fixed plot domain of \<^verbatim>\<open>_setupPlots\<close>\<close>

definition poll_interval :: rat where
  "poll_interval = 1"

definition traf_samples :: nat where
  "traf_samples = nat \<lfloor>600 / poll_interval\<rfloor>"

definition traf_intervals :: nat where
  "traf_intervals = traf_samples - 1"

definition trafPlotDomain :: "rat list" where
  "trafPlotDomain =
     map (\<lambda>s. poll_interval * ageOfTime (of_nat traf_intervals) (of_nat s))
       [1..<traf_intervals + 1]"

subsection \<open>The series merge of \<^verbatim>\<open>plotNetTotals\<close>\<close>

text \<open>\<^verbatim>\<open>int(x)\<close> truncates towards zero.\<close>

definition py_int :: "rat \<Rightarrow> int" where
  "py_int x = (if 0 \<le> x then \<lfloor>x\<rfloor> else \<lceil>x\<rceil>)"

definition removeNone :: "rat option \<Rightarrow> rat" where
  "removeNone v = (case v of None \<Rightarrow> 0 | Some x \<Rightarrow> x)"

definition interpolate :: "rat \<Rightarrow> rat \<Rightarrow> rat \<Rightarrow> rat" where
  "interpolate blend a b = a * (1 - blend) + b * blend"

text \<open>
  The first loop: scan the indices of the plot domain for the first filled slot of the
  receive buffer. The third argument is the loop variable \<^verbatim>\<open>oldestFullResIndex\<close> as
  the previous iteration left it (\<open>None\<close>: not yet bound). Without a \<^verbatim>\<open>break\<close> the
  variable keeps the last index and \<^verbatim>\<open>oldestFullResAge\<close> stays 0.
\<close>

fun boundaryLoop :: "rat RRA \<Rightarrow> nat list \<Rightarrow> nat option \<Rightarrow> nat option \<times> rat" where
  "boundaryLoop r [] idx = (idx, 0)"
| "boundaryLoop r (i # rest) idx =
     (if RRA_getitem r i \<noteq> None then (Some i, trafPlotDomain ! i)
      else boundaryLoop r rest (Some i))"

text \<open>
  The second loop drains the archive. The lists under construction hold numbers only
  (\<^verbatim>\<open>removeNone\<close> has replaced every \<open>None\<close>); \<open>d_last\<close> is the pair of loop variables
  \<^verbatim>\<open>age\<close>, \<^verbatim>\<open>values\<close> as the loop leaves them (\<open>None\<close>: the body never ran).
\<close>

record drained =
  d_ages :: "rat list"
  d_recv :: "rat list"
  d_sent :: "rat list"
  d_last :: "(rat \<times> (rat option \<times> rat option)) option"

fun archiveLoop :: "rat \<Rightarrow> rat \<Rightarrow> bucket list \<Rightarrow> drained \<Rightarrow> drained" where
  "archiveLoop now oldestFullResAge [] d = d"
| "archiveLoop now oldestFullResAge ((t, values) # rest) d =
     (let age = ageOfTime now (of_int t) in
      if age > oldestFullResAge then
        archiveLoop now oldestFullResAge rest
          \<lparr>d_ages = d_ages d @ [age],
           d_recv = d_recv d @ [removeNone (fst values)],
           d_sent = d_sent d @ [removeNone (snd values)],
           d_last = Some (age, values)\<rparr>
      else d\<lparr>d_last := Some (age, values)\<rparr>)"

text \<open>
  The interpolation step, guarded by \<^verbatim>\<open>len(ages) > 0\<close> and \<^verbatim>\<open>age != prevAge\<close>. It
  returns the lists and the full-resolution start index, advanced by one when a point
  was inserted. Under the first guard the archive loop has run its body, so its loop
  variables are bound. The division is true division; its divisor is non-zero under the
  second guard.
\<close>

definition interpolateBoundary :: "rat \<Rightarrow> drained \<Rightarrow> nat \<Rightarrow> drained \<times> nat" where
  "interpolateBoundary oldestFullResAge d oldestFullResIndex =
     (if length (d_ages d) > 0 then
        (case d_last d of
           None \<Rightarrow> (d, oldestFullResIndex)
         | Some (age, values) \<Rightarrow>
             (let prevAge = last (d_ages d) in
              if age \<noteq> prevAge then
                (let blend = (oldestFullResAge - age) / (prevAge - age) in
                 (d\<lparr>d_ages := d_ages d @ [oldestFullResAge],
                    d_recv := d_recv d @ [interpolate blend (removeNone (fst values)) (last (d_recv d))],
                    d_sent := d_sent d @ [interpolate blend (removeNone (snd values)) (last (d_sent d))]\<rparr>,
                  oldestFullResIndex + 1))
              else (d, oldestFullResIndex)))
      else (d, oldestFullResIndex))"

text \<open>The emitted series: the three parallel lists handed to the two plot items.\<close>

record series =
  ages :: "rat list"
  recv :: "rat option list"
  sent :: "rat option list"

text \<open>
  The merge as a function of what it reads: the clock, the two ring buffers and the
  archive. An unbound \<^verbatim>\<open>oldestFullResIndex\<close> (an empty plot domain) is a
  \<^verbatim>\<open>NameError\<close> at its first use.
\<close>

definition mergeSeries :: "rat \<Rightarrow> rat RRA \<Rightarrow> rat RRA \<Rightarrow> bucket list \<Rightarrow> error + series" where
  "mergeSeries clock trafRecv trafSent fetched =
     (let (idx, oldestFullResAge) = boundaryLoop trafRecv [0..<length trafPlotDomain] None;
          now = of_int (py_int clock);
          d = archiveLoop now oldestFullResAge fetched
                \<lparr>d_ages = [], d_recv = [], d_sent = [], d_last = None\<rparr>
      in case idx of
           None \<Rightarrow> Inl NameError
         | Some oldestFullResIndex \<Rightarrow>
             (let (d', i) = interpolateBoundary oldestFullResAge d oldestFullResIndex in
              Inr \<lparr>ages = d_ages d' @ drop i trafPlotDomain,
                   recv = map Some (d_recv d') @ drop i (RRA_differences 0 trafRecv),
                   sent = map Some (d_sent d') @ drop i (RRA_differences 0 trafSent)\<rparr>))"

subsection \<open>The main window\<close>

text \<open>
  The attributes of \<^verbatim>\<open>MainWindow\<close> that the scheduler, the handlers and the merge read
  or write. Effects on collaborators are kept as traces: \<open>rpcCalls\<close> lists the
  \<^verbatim>\<open>proxy._call\<close> invocations, \<open>tracebacks\<close> what \<^verbatim>\<open>traceback.print_exc\<close> printed,
  and each plot item lists the \<^verbatim>\<open>setData\<close> calls it received, oldest first.
  \<open>statusMissedSamples\<close> is the number shown by the missed-samples label. The texts of
  the other labels, the menus and the mempool chart are not represented.
\<close>

datatype arg = BoolArg bool

datatype slot = UpdateInfo | UpdateMiningInfo | UpdateNetTotals | UpdateMemPool

record reply =
  r_method :: string
  r_args :: "arg list"
  r_slot :: slot

datatype status = StatusText string | StatusRTT "reply list"

record MainWindow =
  busy :: bool
  missedSamples :: int
  chainIndex :: nat
  replies :: "reply list"
  lastBlockCount :: "int option"
  blockRecvTimes :: "rat RRA"
  trafRecv :: "rat RRA"
  trafSent :: "rat RRA"
  trafRRD :: "bucket list"
  statusNetwork :: status
  statusMissedSamples :: int
  trafRecvPlot :: "(rat list \<times> rat option list) list"
  trafSentPlot :: "(rat list \<times> rat option list) list"
  rpcCalls :: "(string \<times> arg list) list"
  tracebacks :: "error list"

text \<open>
  \<^verbatim>\<open>__init__\<close> with \<^verbatim>\<open>_setupStatusBar\<close> and \<^verbatim>\<open>_setupPlots\<close>. The archive is
  persistent, so its content at start is a parameter. \<^verbatim>\<open>chainIndex\<close> and
  \<^verbatim>\<open>replies\<close> are created by \<^verbatim>\<open>startChain\<close>; their only reader,
  \<^verbatim>\<open>nextChainedRequest\<close>, runs from \<^verbatim>\<open>startChain\<close> or from the slot of a reply that
  \<^verbatim>\<open>nextChainedRequest\<close> created, so the values given here are never read.
\<close>

definition init :: "bucket list \<Rightarrow> MainWindow" where
  "init rrd =
     \<lparr>busy = False, missedSamples = 0, chainIndex = 0, replies = [],
      lastBlockCount = None, blockRecvTimes = RRA_new 24,
      trafRecv = RRA_new traf_samples, trafSent = RRA_new traf_samples,
      trafRRD = rrd, statusNetwork = StatusText [], statusMissedSamples = 0,
      trafRecvPlot = [], trafSentPlot = [], rpcCalls = [], tracebacks = []\<rparr>"

text \<open>\<^verbatim>\<open>plotNetTotals\<close>: the merge, then one \<^verbatim>\<open>setData\<close> on each plot item.\<close>

definition plotNetTotals :: "rat \<Rightarrow> MainWindow \<Rightarrow> MainWindow outcome" where
  "plotNetTotals clock s =
     (case mergeSeries clock (trafRecv s) (trafSent s) (trafRRD s) of
        Inl e \<Rightarrow> Raised e s
      | Inr out \<Rightarrow>
          Returned (s\<lparr>trafRecvPlot := trafRecvPlot s @ [(ages out, recv out)],
                      trafSentPlot := trafSentPlot s @ [(ages out, sent out)]\<rparr>))"

subsection \<open>The request chain\<close>

text \<open>The chain that the four \<^verbatim>\<open>@chainRequest\<close> decorators register, in source order.\<close>

definition commandChain :: "(string \<times> arg list \<times> slot) list" where
  "commandChain =
     [(''getinfo'', [], UpdateInfo),
      (''getmininginfo'', [], UpdateMiningInfo),
      (''getnettotals'', [], UpdateNetTotals),
      (''getrawmempool'', [BoolArg True], UpdateMemPool)]"

definition updateStatusMissedSamples :: "MainWindow \<Rightarrow> MainWindow" where
  "updateStatusMissedSamples s = s\<lparr>statusMissedSamples := missedSamples s\<rparr>"

definition nextChainedRequest :: "MainWindow \<Rightarrow> MainWindow" where
  "nextChainedRequest s =
     (if chainIndex s \<ge> length commandChain then
        s\<lparr>busy := False, statusNetwork := StatusRTT (replies s)\<rparr>
      else
        (case commandChain ! chainIndex s of
           (method, args, slot) \<Rightarrow>
             s\<lparr>rpcCalls := rpcCalls s @ [(method, args)],
               replies := replies s @ [\<lparr>r_method = method, r_args = args, r_slot = slot\<rparr>],
               chainIndex := chainIndex s + 1\<rparr>))"

definition startChain :: "MainWindow \<Rightarrow> MainWindow" where
  "startChain s = nextChainedRequest (s\<lparr>chainIndex := 0, replies := [], busy := True\<rparr>)"

definition update :: "MainWindow \<Rightarrow> MainWindow" where
  "update s =
     (if busy s then updateStatusMissedSamples (s\<lparr>missedSamples := missedSamples s + 1\<rparr>)
      else startChain s)"

text \<open>
  The wrapper that \<^verbatim>\<open>chainRequest\<close> puts around a response handler: run the handler,
  print the traceback of anything it raises, and continue the chain in either case.
\<close>

definition handlerWrapper ::
  "('d \<Rightarrow> MainWindow \<Rightarrow> MainWindow outcome) \<Rightarrow> 'd \<Rightarrow> MainWindow \<Rightarrow> MainWindow" where
  "handlerWrapper responseHandler data s =
     (case responseHandler data s of
        Returned s' \<Rightarrow> nextChainedRequest s'
      | Raised e s' \<Rightarrow> nextChainedRequest (s'\<lparr>tracebacks := tracebacks s' @ [e]\<rparr>))"

text \<open>\<^verbatim>\<open>netError\<close>, the slot of a reply's error signal (with \<^verbatim>\<open>DEBUG\<close> off).\<close>

definition netError :: "string \<Rightarrow> rat \<Rightarrow> MainWindow \<Rightarrow> MainWindow outcome" where
  "netError err_str clock s =
     plotNetTotals clock
       (s\<lparr>busy := False, statusNetwork := StatusText (''Network error: '' @ err_str)\<rparr>)"

subsection \<open>The response handlers\<close>

text \<open>
  A reply's payload is a dictionary from keys to numbers; a missing key is a
  \<^verbatim>\<open>KeyError\<close>. \<^verbatim>\<open>updateInfo\<close> reads the clock when it records a block arrival.
\<close>

definition updateInfo :: "(string \<rightharpoonup> int) \<times> rat \<Rightarrow> MainWindow \<Rightarrow> MainWindow outcome" where
  "updateInfo data s =
     (case data of (info, clock) \<Rightarrow>
      (case info ''connections'' of
         None \<Rightarrow> Raised (KeyError ''connections'') s
       | Some connections \<Rightarrow>
           (case info ''blocks'' of
              None \<Rightarrow> Raised (KeyError ''blocks'') s
            | Some blocks \<Rightarrow>
                (case lastBlockCount s of
                   None \<Rightarrow> Returned (s\<lparr>lastBlockCount := Some blocks\<rparr>)
                 | Some lastSeen \<Rightarrow>
                     if blocks > lastSeen then
                       Returned (s\<lparr>lastBlockCount := Some blocks,
                                   blockRecvTimes := RRA_update clock (blockRecvTimes s)\<rparr>)
                     else Returned s))))"

definition updateMiningInfo :: "(string \<rightharpoonup> rat) \<Rightarrow> MainWindow \<Rightarrow> MainWindow outcome" where
  "updateMiningInfo info s =
     (case info ''difficulty'' of
        None \<Rightarrow> Raised (KeyError ''difficulty'') s
      | Some difficulty \<Rightarrow>
          (case info ''pooledtx'' of
             None \<Rightarrow> Raised (KeyError ''pooledtx'') s
           | Some pooledtx \<Rightarrow> Returned s))"

text \<open>
  \<^verbatim>\<open>updateNetTotals\<close> appends to both ring buffers and to the archive. What the archive
  holds after \<^verbatim>\<open>trafRRD.update\<close> is decided by the external store: its update is the
  first component of the data.
\<close>

definition updateNetTotals ::
  "(int \<Rightarrow> int \<times> int \<Rightarrow> bucket list \<Rightarrow> bucket list) \<times> (string \<rightharpoonup> int)
     \<Rightarrow> MainWindow \<Rightarrow> MainWindow outcome" where
  "updateNetTotals data s =
     (case data of (RRD_update, totals) \<Rightarrow>
      (case totals ''totalbytesrecv'' of
         None \<Rightarrow> Raised (KeyError ''totalbytesrecv'') s
       | Some recvTotal \<Rightarrow>
           (let s1 = s\<lparr>trafRecv := RRA_update (of_int recvTotal) (trafRecv s)\<rparr> in
            case totals ''totalbytessent'' of
              None \<Rightarrow> Raised (KeyError ''totalbytessent'') s1
            | Some sentTotal \<Rightarrow>
                (let s2 = s1\<lparr>trafSent := RRA_update (of_int sentTotal) (trafSent s1)\<rparr> in
                 case totals ''timemillis'' of
                   None \<Rightarrow> Raised (KeyError ''timemillis'') s2
                 | Some sampleTime \<Rightarrow>
                     Returned (s2\<lparr>trafRRD := RRD_update sampleTime (recvTotal, sentTotal) (trafRRD s2)\<rparr>)))))"

text \<open>
  \<^verbatim>\<open>updateMemPool\<close> redraws the traffic plot and then the mempool chart. The chart is
  not represented; whether drawing it raises is the second component of the data.
\<close>

definition updateMemPool :: "rat \<times> error option \<Rightarrow> MainWindow \<Rightarrow> MainWindow outcome" where
  "updateMemPool data s =
     (case data of (clock, chartError) \<Rightarrow>
      (case plotNetTotals clock s of
         Raised e s' \<Rightarrow> Raised e s'
       | Returned s' \<Rightarrow>
           (case chartError of None \<Rightarrow> Returned s' | Some e \<Rightarrow> Raised e s')))"

subsection \<open>Runs of the event loop\<close>

text \<open>
  What the Qt event loop delivers to the window: a timer tick, the finished signal of a
  reply (which runs the wrapped handler the reply was connected to), or the error signal
  of a reply. A run applies a list of events in order.
\<close>

datatype event =
    Tick
  | InfoReply "string \<rightharpoonup> int" rat
  | MiningInfoReply "string \<rightharpoonup> rat"
  | NetTotalsReply "int \<Rightarrow> int \<times> int \<Rightarrow> bucket list \<Rightarrow> bucket list" "string \<rightharpoonup> int"
  | MemPoolReply rat "error option"
  | ErrorReply string rat

fun step :: "event \<Rightarrow> MainWindow \<Rightarrow> MainWindow" where
  "step Tick s = update s"
| "step (InfoReply info clock) s = handlerWrapper updateInfo (info, clock) s"
| "step (MiningInfoReply info) s = handlerWrapper updateMiningInfo info s"
| "step (NetTotalsReply RRD_update totals) s = handlerWrapper updateNetTotals (RRD_update, totals) s"
| "step (MemPoolReply clock chartError) s = handlerWrapper updateMemPool (clock, chartError) s"
| "step (ErrorReply err_str clock) s = state_of (netError err_str clock s)"

fun run :: "event list \<Rightarrow> MainWindow \<Rightarrow> MainWindow" where
  "run [] s = s"
| "run (e # es) s = run es (step e s)"

subsection \<open>Notions used to state the properties\<close>

definition bucketAge :: "rat \<Rightarrow> bucket \<Rightarrow> rat" where
  "bucketAge now b = ageOfTime now (of_int (fst b))"

text \<open>The buckets the drain keeps, and what is left from the bucket that stops it.\<close>

definition keptBuckets :: "rat \<Rightarrow> rat \<Rightarrow> bucket list \<Rightarrow> bucket list" where
  "keptBuckets now B bs = takeWhile (\<lambda>b. bucketAge now b > B) bs"

definition restBuckets :: "rat \<Rightarrow> rat \<Rightarrow> bucket list \<Rightarrow> bucket list" where
  "restBuckets now B bs = dropWhile (\<lambda>b. bucketAge now b > B) bs"

text \<open>
  A receive buffer of capacity 600 whose first filled slot is index 8, at age 590, where
  the full-resolution difference is 120; and a buffer with every slot filled.
\<close>

definition sampleFrom590 :: "rat RRA" where
  "sampleFrom590 = replicate 8 None @ Some 120 # replicate 591 (Some 0)"

definition allFilled :: "rat RRA" where
  "allFilled = replicate 600 (Some 0)"

text \<open>
  A \<^verbatim>\<open>getinfo\<close> payload with both keys, and the block-arrival observer fed a sequence of
  block counts with the clock reading at each: one \<^verbatim>\<open>updateInfo\<close> per observation.
\<close>

definition getinfoReply :: "int \<Rightarrow> int \<Rightarrow> (string \<rightharpoonup> int)" where
  "getinfoReply connections blocks = [''connections'' \<mapsto> connections, ''blocks'' \<mapsto> blocks]"

fun observe :: "int \<Rightarrow> (int \<times> rat) list \<Rightarrow> MainWindow \<Rightarrow> MainWindow" where
  "observe connections [] s = s"
| "observe connections ((blocks, clock) # rest) s =
     observe connections rest (state_of (updateInfo (getinfoReply connections blocks, clock) s))"

section \<open>Properties\<close>

subsection \<open>Auxiliary facts\<close>

lemma traf_intervals_eq: "traf_intervals = 599"
  by (simp add: traf_intervals_def traf_samples_def poll_interval_def)

lemma length_trafPlotDomain: "length trafPlotDomain = 599"
  by (simp add: trafPlotDomain_def traf_intervals_eq)

lemma trafPlotDomain_nth: "i < 599 \<Longrightarrow> trafPlotDomain ! i = 598 - of_nat i"
  by (simp add: trafPlotDomain_def traf_intervals_eq poll_interval_def ageOfTime_def)

lemma boundaryLoop_find:
  "boundaryLoop r is idx =
     (case List.find (\<lambda>i. RRA_getitem r i \<noteq> None) is of
        Some i \<Rightarrow> (Some i, trafPlotDomain ! i)
      | None \<Rightarrow> (if is = [] then idx else Some (last is), 0))"
  by (induction "is" arbitrary: idx) (auto split: option.split)

lemma archiveLoop_eq:
  "archiveLoop now B bs d =
     \<lparr>d_ages = d_ages d @ map (bucketAge now) (keptBuckets now B bs),
      d_recv = d_recv d @ map (\<lambda>b. removeNone (fst (snd b))) (keptBuckets now B bs),
      d_sent = d_sent d @ map (\<lambda>b. removeNone (snd (snd b))) (keptBuckets now B bs),
      d_last = (case restBuckets now B bs of
                  [] \<Rightarrow> (if keptBuckets now B bs = [] then d_last d
                         else Some (bucketAge now (last (keptBuckets now B bs)), snd (last (keptBuckets now B bs))))
                | b # _ \<Rightarrow> Some (bucketAge now b, snd b))\<rparr>"
proof (induction bs arbitrary: d)
  case Nil
  show ?case by (simp add: keptBuckets_def restBuckets_def)
next
  case (Cons b bs)
  obtain t v where b: "b = (t, v)" by (cases b)
  show ?case
  proof (cases "bucketAge now b > B")
    case True
    define d1 where "d1 = \<lparr>d_ages = d_ages d @ [bucketAge now b],
           d_recv = d_recv d @ [removeNone (fst (snd b))],
           d_sent = d_sent d @ [removeNone (snd (snd b))],
           d_last = Some (bucketAge now b, snd b)\<rparr>"
    have step: "archiveLoop now B (b # bs) d = archiveLoop now B bs d1"
      using True b by (simp add: bucketAge_def d1_def Let_def)
    have k: "keptBuckets now B (b # bs) = b # keptBuckets now B bs"
      and r: "restBuckets now B (b # bs) = restBuckets now B bs"
      using True by (simp_all add: keptBuckets_def restBuckets_def)
    show ?thesis
      unfolding step k r Cons.IH [of d1]
      by (simp add: d1_def split: list.split)
  next
    case False
    then show ?thesis
      using b by (simp add: keptBuckets_def restBuckets_def bucketAge_def Let_def)
  qed
qed


lemma keptBuckets_last:
  "keptBuckets now B bs \<noteq> [] \<Longrightarrow> bucketAge now (last (keptBuckets now B bs)) > B"
proof -
  assume ne: "keptBuckets now B bs \<noteq> []"
  then have "last (keptBuckets now B bs) \<in> set (takeWhile (\<lambda>b. bucketAge now b > B) bs)"
    unfolding keptBuckets_def by (rule last_in_set)
  then show ?thesis by (rule set_takeWhileD [THEN conjunct2])
qed

lemma restBuckets_hd:
  "restBuckets now B bs = b # bs' \<Longrightarrow> bucketAge now b \<le> B"
proof -
  assume "restBuckets now B bs = b # bs'"
  then have "\<not> bucketAge now b > B"
    unfolding restBuckets_def by (metis hd_dropWhile list.sel(1) list.distinct(1))
  then show ?thesis by simp
qed

lemma mergeSeries_plain:
  assumes bl: "boundaryLoop r1 [0..<length trafPlotDomain] None = (Some i, B)"
    and plain: "keptBuckets (of_int (py_int clock)) B fetched = [] \<or> restBuckets (of_int (py_int clock)) B fetched = []"
  shows "mergeSeries clock r1 r2 fetched =
     Inr \<lparr>ages = map (bucketAge (of_int (py_int clock))) (keptBuckets (of_int (py_int clock)) B fetched) @ drop i trafPlotDomain,
          recv = map (\<lambda>b. Some (removeNone (fst (snd b)))) (keptBuckets (of_int (py_int clock)) B fetched)
                   @ drop i (RRA_differences 0 r1),
          sent = map (\<lambda>b. Some (removeNone (snd (snd b)))) (keptBuckets (of_int (py_int clock)) B fetched)
                   @ drop i (RRA_differences 0 r2)\<rparr>"
proof (cases "keptBuckets (of_int (py_int clock)) B fetched = []")
  case True
  then show ?thesis
    by (simp add: mergeSeries_def bl archiveLoop_eq interpolateBoundary_def Let_def)
next
  case False
  with plain have r: "restBuckets (of_int (py_int clock)) B fetched = []" by simp
  show ?thesis
    using False
    by (simp add: mergeSeries_def bl archiveLoop_eq interpolateBoundary_def r last_map o_def Let_def)
qed

lemma mergeSeries_interp:
  assumes bl: "boundaryLoop r1 [0..<length trafPlotDomain] None = (Some i, B)"
    and k: "keptBuckets (of_int (py_int clock)) B fetched \<noteq> []"
    and r: "restBuckets (of_int (py_int clock)) B fetched = b # bs'"
  shows "mergeSeries clock r1 r2 fetched =
     Inr \<lparr>ages = map (bucketAge (of_int (py_int clock))) (keptBuckets (of_int (py_int clock)) B fetched)
                   @ [B] @ drop (i + 1) trafPlotDomain,
          recv = map (\<lambda>b. Some (removeNone (fst (snd b)))) (keptBuckets (of_int (py_int clock)) B fetched)
                   @ [Some (interpolate
                        ((B - bucketAge (of_int (py_int clock)) b)
                          / (bucketAge (of_int (py_int clock)) (last (keptBuckets (of_int (py_int clock)) B fetched))
                              - bucketAge (of_int (py_int clock)) b))
                        (removeNone (fst (snd b)))
                        (removeNone (fst (snd (last (keptBuckets (of_int (py_int clock)) B fetched))))))]
                   @ drop (i + 1) (RRA_differences 0 r1),
          sent = map (\<lambda>b. Some (removeNone (snd (snd b)))) (keptBuckets (of_int (py_int clock)) B fetched)
                   @ [Some (interpolate
                        ((B - bucketAge (of_int (py_int clock)) b)
                          / (bucketAge (of_int (py_int clock)) (last (keptBuckets (of_int (py_int clock)) B fetched))
                              - bucketAge (of_int (py_int clock)) b))
                        (removeNone (snd (snd b)))
                        (removeNone (snd (snd (last (keptBuckets (of_int (py_int clock)) B fetched))))))]
                   @ drop (i + 1) (RRA_differences 0 r2)\<rparr>"
proof -
  have "bucketAge (of_int (py_int clock)) b \<le> B"
    using r by (rule restBuckets_hd)
  moreover have "bucketAge (of_int (py_int clock)) (last (keptBuckets (of_int (py_int clock)) B fetched)) > B"
    using k by (rule keptBuckets_last)
  ultimately have ne: "bucketAge (of_int (py_int clock)) b
      \<noteq> bucketAge (of_int (py_int clock)) (last (keptBuckets (of_int (py_int clock)) B fetched))"
    by simp
  show ?thesis
    using k ne
    by (simp add: mergeSeries_def bl archiveLoop_eq interpolateBoundary_def r last_map o_def Let_def)
qed

lemma boundaryLoop_total:
  "\<exists>i<599. boundaryLoop r [0..<length trafPlotDomain] None = (Some i, trafPlotDomain ! i)"
proof (cases "List.find (\<lambda>i. RRA_getitem r i \<noteq> None) [0..<599]")
  case None
  have l: "last [0..<599] = (598::nat)" by (simp add: last_upt)
  have "trafPlotDomain ! 598 = 0" by (simp add: trafPlotDomain_nth)
  then show ?thesis
    using None l by (auto simp add: boundaryLoop_find length_trafPlotDomain intro!: exI [of _ 598])
next
  case (Some i)
  then have "i \<in> set [0..<599]" by (auto simp: find_Some_iff)
  then show ?thesis
    using Some by (auto simp add: boundaryLoop_find length_trafPlotDomain)
qed

lemma boundaryLoop_cold:
  assumes "\<forall>i<length trafPlotDomain. RRA_getitem r i = None"
  shows "boundaryLoop r [0..<length trafPlotDomain] None = (Some 598, 0)"
proof -
  have "List.find (\<lambda>i. RRA_getitem r i \<noteq> None) [0..<599] = None"
    using assms by (simp add: find_None_iff length_trafPlotDomain)
  moreover have "last [0..<599] = (598::nat)" by (simp add: last_upt)
  ultimately show ?thesis
    by (simp add: boundaryLoop_find length_trafPlotDomain)
qed

lemma boundaryLoop_first:
  assumes "i < 599" "\<forall>j<i. RRA_getitem r j = None" "RRA_getitem r i \<noteq> None"
  shows "boundaryLoop r [0..<length trafPlotDomain] None = (Some i, 598 - of_nat i)"
proof -
  have "List.find (\<lambda>i. RRA_getitem r i \<noteq> None) [0..<599] = Some i"
    using assms by (auto simp add: find_Some_iff intro!: exI [of _ i])
  then show ?thesis
    using assms(1) by (simp add: boundaryLoop_find length_trafPlotDomain trafPlotDomain_nth)
qed

lemma mergeSeries_returns: "\<exists>out. mergeSeries clock r1 r2 fetched = Inr out"
proof -
  obtain i where bl: "boundaryLoop r1 [0..<length trafPlotDomain] None = (Some i, trafPlotDomain ! i)"
    using boundaryLoop_total by blast
  show ?thesis
    by (simp add: mergeSeries_def bl Let_def split: prod.split)
qed

lemma sorted_trafPlotDomain: "sorted_wrt (>) trafPlotDomain"
proof -
  have "sorted_wrt (\<lambda>x y. (poll_interval * ageOfTime (of_nat traf_intervals) (of_nat x))
                        > (poll_interval * ageOfTime (of_nat traf_intervals) (of_nat y)))
          [1..<Suc traf_intervals]"
    by (rule sorted_wrt_mono_rel [OF _ sorted_wrt_upt [of 1 "Suc traf_intervals"]])
       (simp add: poll_interval_def ageOfTime_def)
  then show ?thesis
    by (simp only: trafPlotDomain_def sorted_wrt_map Suc_eq_plus1)
qed

lemma sorted_drop_trafPlotDomain: "sorted_wrt (>) (drop i trafPlotDomain)"
  using sorted_trafPlotDomain by (rule sorted_wrt_drop)

lemma trafPlotDomain_le: "x \<in> set trafPlotDomain \<Longrightarrow> x \<le> 598"
  by (auto simp add: trafPlotDomain_def poll_interval_def ageOfTime_def traf_intervals_eq)

lemma keptBuckets_split:
  "\<forall>b\<in>set kept. bucketAge now b > B \<Longrightarrow> bucketAge now nxt \<le> B \<Longrightarrow>
     keptBuckets now B (kept @ nxt # rest) = kept \<and> restBuckets now B (kept @ nxt # rest) = nxt # rest"
  by (simp add: keptBuckets_def restBuckets_def takeWhile_append2 dropWhile_append2)

lemma sampleFrom590_boundary:
  "boundaryLoop sampleFrom590 [0..<length trafPlotDomain] None = (Some 8, 590)"
proof -
  have "boundaryLoop sampleFrom590 [0..<length trafPlotDomain] None = (Some 8, 598 - of_nat 8)"
    by (rule boundaryLoop_first) (auto simp add: sampleFrom590_def RRA_getitem_def nth_append)
  then show ?thesis by simp
qed

lemma sampleFrom590_diff: "drop 8 (RRA_differences 0 sampleFrom590) ! 0 = Some 120"
  by (simp add: RRA_differences_def RRA_difference_def RRA_getitem_def sampleFrom590_def nth_append)

lemma allFilled_boundary:
  "boundaryLoop allFilled [0..<length trafPlotDomain] None = (Some 0, 598)"
proof -
  have "boundaryLoop allFilled [0..<length trafPlotDomain] None = (Some 0, 598 - of_nat 0)"
    by (rule boundaryLoop_first) (auto simp add: allFilled_def RRA_getitem_def)
  then show ?thesis by simp
qed

subsection \<open>The boundary point of the merge\<close>

text \<open>
  Claim C1, as the code has it. When the drain keeps at least one archive bucket and
  stops at a further bucket \<open>nxt\<close> (the first whose age is at or below the boundary age
  \<open>B\<close>), the merge inserts one point at age \<open>B\<close> and starts the full-resolution part
  one index later. The inserted value blends the two archive buckets on either side of
  the boundary, \<open>nxt * (1 - blend) + last * blend\<close> with
  \<open>blend = (B - age nxt) / (age last - age nxt)\<close>; the full-resolution value at the
  boundary is not part of it.
\<close>

theorem boundary_point_blends_archive_neighbours:
  assumes bl: "boundaryLoop recvBuf [0..<length trafPlotDomain] None = (Some i, B)"
    and now: "now = of_int (py_int clock)"
    and kept: "kept \<noteq> []" "\<forall>b\<in>set kept. bucketAge now b > B"
    and stop: "bucketAge now nxt \<le> B"
    and blend: "blend = (B - bucketAge now nxt) / (bucketAge now (last kept) - bucketAge now nxt)"
  shows "mergeSeries clock recvBuf sentBuf (kept @ nxt # rest) =
     Inr \<lparr>ages = map (bucketAge now) kept @ [B] @ drop (i + 1) trafPlotDomain,
          recv = map (\<lambda>b. Some (removeNone (fst (snd b)))) kept
                   @ [Some (interpolate blend (removeNone (fst (snd nxt))) (removeNone (fst (snd (last kept)))))]
                   @ drop (i + 1) (RRA_differences 0 recvBuf),
          sent = map (\<lambda>b. Some (removeNone (snd (snd b)))) kept
                   @ [Some (interpolate blend (removeNone (snd (snd nxt))) (removeNone (snd (snd (last kept)))))]
                   @ drop (i + 1) (RRA_differences 0 sentBuf)\<rparr>"
proof -
  have k: "keptBuckets (of_int (py_int clock)) B (kept @ nxt # rest) = kept"
    and r: "restBuckets (of_int (py_int clock)) B (kept @ nxt # rest) = nxt # rest"
    using keptBuckets_split [OF kept(2) stop, of rest] by (simp_all add: now)
  have ne: "keptBuckets (of_int (py_int clock)) B (kept @ nxt # rest) \<noteq> []"
    using kept(1) k by simp
  show ?thesis
    using mergeSeries_interp [OF bl ne r, of sentBuf] by (simp add: k now blend)
qed

theorem boundary_point_blends_archive_neighbours_witness:
  "mergeSeries 1000 sampleFrom590 allFilled
       [(350, (Some 100, Some 10)), (450, (Some 40, None)), (500, (None, None))] =
     Inr \<lparr>ages = [650, 590] @ drop 9 trafPlotDomain,
          recv = [Some 100, Some 64] @ drop 9 (RRA_differences 0 sampleFrom590),
          sent = [Some 10, Some 4] @ drop 9 (RRA_differences 0 allFilled)\<rparr>"
  using boundary_point_blends_archive_neighbours
    [OF sampleFrom590_boundary, of 1000 1000 "[(350, (Some 100, Some 10))]" "(450, (Some 40, None))"
       "2/5" allFilled "[(500, (None, None))]"]
  by (simp add: py_int_def bucketAge_def ageOfTime_def removeNone_def interpolate_def)

text \<open>
  The claim as the spec words it fails on its own example. With a single archive bucket
  at age 650 (value 100) and the oldest filled full-resolution sample at age 590 (value
  120), the drain ends without a bucket to stop at: the series is the archive bucket
  followed directly by the full-resolution sample at age 590, and no point at age 600
  with the value \<open>100 + (120 - 100) * ((650 - 600) / (650 - 590))\<close> exists. Likewise
  with every slot filled: the series is the archive bucket followed by the whole plot
  domain.
\<close>

theorem single_bucket_no_boundary_point:
  "mergeSeries 1000 sampleFrom590 allFilled [(350, (Some 100, Some 100))] =
     Inr \<lparr>ages = 650 # drop 8 trafPlotDomain,
          recv = Some 100 # drop 8 (RRA_differences 0 sampleFrom590),
          sent = Some 100 # drop 8 (RRA_differences 0 allFilled)\<rparr>
   \<and> drop 8 trafPlotDomain ! 0 = 590
   \<and> drop 8 (RRA_differences 0 sampleFrom590) ! 0 = Some 120
   \<and> (600, Some (100 + (120 - 100) * ((650 - 600) / (650 - 590))))
        \<notin> set (zip (650 # drop 8 trafPlotDomain) (Some 100 # drop 8 (RRA_differences 0 sampleFrom590)))
   \<and> mergeSeries 1000 allFilled allFilled [(350, (Some 100, Some 100))] =
     Inr \<lparr>ages = 650 # trafPlotDomain,
          recv = Some 100 # RRA_differences 0 allFilled,
          sent = Some 100 # RRA_differences 0 allFilled\<rparr>"
proof -
  have p: "py_int 1000 = 1000" by (simp add: py_int_def)
  have "keptBuckets (of_int (py_int 1000)) 590 [(350, (Some 100, Some 100))] = []
      \<or> restBuckets (of_int (py_int 1000)) 590 [(350, (Some 100, Some 100))] = []"
    by (simp add: restBuckets_def bucketAge_def ageOfTime_def p)
  from mergeSeries_plain [OF sampleFrom590_boundary this, of allFilled]
  have m: "mergeSeries 1000 sampleFrom590 allFilled [(350, (Some 100, Some 100))] =
     Inr \<lparr>ages = 650 # drop 8 trafPlotDomain,
          recv = Some 100 # drop 8 (RRA_differences 0 sampleFrom590),
          sent = Some 100 # drop 8 (RRA_differences 0 allFilled)\<rparr>"
    by (simp add: keptBuckets_def bucketAge_def ageOfTime_def p removeNone_def)
  have "keptBuckets (of_int (py_int 1000)) 598 [(350, (Some 100, Some 100))] = []
      \<or> restBuckets (of_int (py_int 1000)) 598 [(350, (Some 100, Some 100))] = []"
    by (simp add: restBuckets_def bucketAge_def ageOfTime_def p)
  from mergeSeries_plain [OF allFilled_boundary this, of allFilled]
  have m': "mergeSeries 1000 allFilled allFilled [(350, (Some 100, Some 100))] =
     Inr \<lparr>ages = 650 # trafPlotDomain,
          recv = Some 100 # RRA_differences 0 allFilled,
          sent = Some 100 # RRA_differences 0 allFilled\<rparr>"
    by (simp add: keptBuckets_def bucketAge_def ageOfTime_def p removeNone_def)
  have d: "drop 8 trafPlotDomain ! 0 = 590"
    by (simp add: length_trafPlotDomain trafPlotDomain_nth)
  have "600 \<notin> set (650 # drop 8 trafPlotDomain)"
    using trafPlotDomain_le [of 600] by (auto dest: in_set_dropD)
  then have n: "(600, Some (100 + (120 - 100) * ((650 - 600) / (650 - 590))))
        \<notin> set (zip (650 # drop 8 trafPlotDomain) (Some 100 # drop 8 (RRA_differences 0 sampleFrom590)))"
    by (meson set_zip_leftD)
  show ?thesis
    using m m' d sampleFrom590_diff n by simp
qed

subsection \<open>Cold start of the merge\<close>

lemma traf_samples_eq: "traf_samples = 600"
  by (simp add: traf_samples_def poll_interval_def)

lemma drop_last_trafPlotDomain: "drop 598 trafPlotDomain = [0]"
proof -
  have "drop 598 trafPlotDomain = trafPlotDomain ! 598 # drop (Suc 598) trafPlotDomain"
    by (rule Cons_nth_drop_Suc [symmetric]) (simp add: length_trafPlotDomain)
  then show ?thesis by (simp add: length_trafPlotDomain trafPlotDomain_nth)
qed

lemma drop_last_differences:
  "length r = 600 \<Longrightarrow> drop 598 (RRA_differences 0 r) = [RRA_difference r 598 599]"
  by (simp add: RRA_differences_def drop_map)

lemma drop_all_differences:
  "length r = 600 \<Longrightarrow> drop 599 (RRA_differences 0 r) = []"
  by (simp add: RRA_differences_def)

lemma cold_difference:
  "\<forall>i<length trafPlotDomain. RRA_getitem r i = None \<Longrightarrow> RRA_difference r 598 599 = None"
  by (simp add: RRA_difference_def length_trafPlotDomain)

lemma mergeSeries_cold_plain:
  assumes cold: "\<forall>i<length trafPlotDomain. RRA_getitem recvBuf i = None"
    and cap: "length recvBuf = 600" "length sentBuf = 600"
    and plain: "keptBuckets (of_int (py_int clock)) 0 fetched = [] \<or> restBuckets (of_int (py_int clock)) 0 fetched = []"
  shows "mergeSeries clock recvBuf sentBuf fetched =
     Inr \<lparr>ages = map (bucketAge (of_int (py_int clock))) (keptBuckets (of_int (py_int clock)) 0 fetched) @ [0],
          recv = map (\<lambda>b. Some (removeNone (fst (snd b)))) (keptBuckets (of_int (py_int clock)) 0 fetched) @ [None],
          sent = map (\<lambda>b. Some (removeNone (snd (snd b)))) (keptBuckets (of_int (py_int clock)) 0 fetched)
                   @ [RRA_difference sentBuf 598 599]\<rparr>"
  using mergeSeries_plain [OF boundaryLoop_cold [OF cold] plain, of sentBuf]
  by (simp add: drop_last_trafPlotDomain drop_last_differences cap cold_difference [OF cold])

lemma mergeSeries_cold_interp:
  assumes cold: "\<forall>i<length trafPlotDomain. RRA_getitem recvBuf i = None"
    and cap: "length recvBuf = 600" "length sentBuf = 600"
    and k: "keptBuckets (of_int (py_int clock)) 0 fetched \<noteq> []"
    and r: "restBuckets (of_int (py_int clock)) 0 fetched = b # bs'"
  shows "mergeSeries clock recvBuf sentBuf fetched =
     Inr \<lparr>ages = map (bucketAge (of_int (py_int clock))) (keptBuckets (of_int (py_int clock)) 0 fetched) @ [0],
          recv = map (\<lambda>b. Some (removeNone (fst (snd b)))) (keptBuckets (of_int (py_int clock)) 0 fetched)
                   @ [Some (interpolate
                        ((0 - bucketAge (of_int (py_int clock)) b)
                          / (bucketAge (of_int (py_int clock)) (last (keptBuckets (of_int (py_int clock)) 0 fetched))
                              - bucketAge (of_int (py_int clock)) b))
                        (removeNone (fst (snd b)))
                        (removeNone (fst (snd (last (keptBuckets (of_int (py_int clock)) 0 fetched))))))],
          sent = map (\<lambda>b. Some (removeNone (snd (snd b)))) (keptBuckets (of_int (py_int clock)) 0 fetched)
                   @ [Some (interpolate
                        ((0 - bucketAge (of_int (py_int clock)) b)
                          / (bucketAge (of_int (py_int clock)) (last (keptBuckets (of_int (py_int clock)) 0 fetched))
                              - bucketAge (of_int (py_int clock)) b))
                        (removeNone (snd (snd b)))
                        (removeNone (snd (snd (last (keptBuckets (of_int (py_int clock)) 0 fetched))))))]\<rparr>"
  using mergeSeries_interp [OF boundaryLoop_cold [OF cold] k r, of sentBuf]
  by (simp add: length_trafPlotDomain drop_all_differences cap)

text \<open>
  Claim C6, as the code has it. When no slot in the scanned index range of the receive
  buffer is filled, the first loop leaves \<^verbatim>\<open>oldestFullResIndex\<close> at the last index of
  the plot domain and the boundary age at 0. The output is then the drained archive
  buckets (those of age above 0) followed by exactly one further point, at age 0. When
  the drain kept nothing or ran to the end of the archive, that point is the newest
  full-resolution one: the last plot-domain entry with the last element of
  \<^verbatim>\<open>differences(0)\<close>, which is absent for the receive series. Otherwise, with
  \<open>nxt\<close> the bucket that stopped the drain and \<open>last\<close> the last bucket kept, it is
  the interpolated boundary point \<open>nxt * (1 - blend) + last * blend\<close> with
  \<open>blend = (0 - age nxt) / (age last - age nxt)\<close>, in both series. The ring buffers
  have the capacity the window gives them.
\<close>

theorem cold_start_one_further_point:
  assumes cold: "\<forall>i<length trafPlotDomain. RRA_getitem recvBuf i = None"
    and cap: "length recvBuf = traf_samples" "length sentBuf = traf_samples"
    and now: "now = of_int (py_int clock)"
  shows "\<exists>x y. mergeSeries clock recvBuf sentBuf fetched =
            Inr \<lparr>ages = map (bucketAge now) (keptBuckets now 0 fetched) @ [0],
                 recv = map (\<lambda>b. Some (removeNone (fst (snd b)))) (keptBuckets now 0 fetched) @ [x],
                 sent = map (\<lambda>b. Some (removeNone (snd (snd b)))) (keptBuckets now 0 fetched) @ [y]\<rparr>
          \<and> (keptBuckets now 0 fetched = [] \<or> restBuckets now 0 fetched = []
               \<longrightarrow> x = None \<and> y = RRA_difference sentBuf 598 599)
          \<and> (\<forall>nxt rest. keptBuckets now 0 fetched \<noteq> [] \<and> restBuckets now 0 fetched = nxt # rest
               \<longrightarrow> x = Some (interpolate
                             ((0 - bucketAge now nxt)
                               / (bucketAge now (last (keptBuckets now 0 fetched)) - bucketAge now nxt))
                             (removeNone (fst (snd nxt)))
                             (removeNone (fst (snd (last (keptBuckets now 0 fetched))))))
                 \<and> y = Some (interpolate
                             ((0 - bucketAge now nxt)
                               / (bucketAge now (last (keptBuckets now 0 fetched)) - bucketAge now nxt))
                             (removeNone (snd (snd nxt)))
                             (removeNone (snd (snd (last (keptBuckets now 0 fetched)))))))"
proof (cases "keptBuckets now 0 fetched = [] \<or> restBuckets now 0 fetched = []")
  case True
  then show ?thesis
    using mergeSeries_cold_plain [OF cold, of sentBuf clock fetched] cap
    by (auto simp add: now traf_samples_eq)
next
  case False
  then obtain b bs' where r: "restBuckets (of_int (py_int clock)) 0 fetched = b # bs'"
    and k: "keptBuckets (of_int (py_int clock)) 0 fetched \<noteq> []"
    by (auto simp add: now neq_Nil_conv)
  show ?thesis
    using mergeSeries_cold_interp [OF cold _ _ k r, of sentBuf] cap False r
    by (simp add: now traf_samples_eq)
qed

theorem cold_start_one_further_point_witness:
  "mergeSeries 1000 (RRA_new 600) allFilled [(300, (Some 7, None)), (350, (Some 100, Some 100))] =
     Inr \<lparr>ages = [700, 650, 0], recv = [Some 7, Some 100, None], sent = [Some 0, Some 100, Some 0]\<rparr>
   \<and> mergeSeries 1000 (RRA_new 600) allFilled [(300, (Some 7, Some 10)), (1050, (Some 100, None))] =
     Inr \<lparr>ages = [700, 0], recv = [Some 7, Some (469 / 5)], sent = [Some 10, Some (2 / 3)]\<rparr>"
proof -
  have c: "\<forall>i<length trafPlotDomain. RRA_getitem (RRA_new 600 :: rat RRA) i = None"
    by (simp add: RRA_getitem_def RRA_new_def)
  have k: "keptBuckets 1000 0 [(300, (Some 7, None)), (350, (Some 100, Some 100))]
             = [(300, (Some 7, None)), (350, (Some 100, Some 100))]"
    and r: "restBuckets 1000 0 [(300, (Some 7, None)), (350, (Some 100, Some 100))] = []"
    by (simp_all add: keptBuckets_def restBuckets_def bucketAge_def ageOfTime_def)
  have k': "keptBuckets 1000 0 [(300, (Some 7, Some 10)), (1050, (Some 100, None))]
             = [(300, (Some 7, Some 10))]"
    and r': "restBuckets 1000 0 [(300, (Some 7, Some 10)), (1050, (Some 100, None))]
             = [(1050, (Some 100, None))]"
    by (simp_all add: keptBuckets_def restBuckets_def bucketAge_def ageOfTime_def)
  have d: "RRA_difference allFilled 598 599 = Some 0"
    by (simp add: RRA_difference_def RRA_getitem_def allFilled_def)
  have a: "mergeSeries 1000 (RRA_new 600) allFilled [(300, (Some 7, None)), (350, (Some 100, Some 100))] =
     Inr \<lparr>ages = [700, 650, 0], recv = [Some 7, Some 100, None], sent = [Some 0, Some 100, Some 0]\<rparr>"
    using cold_start_one_further_point [OF c, of allFilled 1000 1000
        "[(300, (Some 7, None)), (350, (Some 100, Some 100))]"] d
    by (simp add: k r traf_samples_eq RRA_new_def allFilled_def py_int_def bucketAge_def
        ageOfTime_def removeNone_def)
  have b: "mergeSeries 1000 (RRA_new 600) allFilled [(300, (Some 7, Some 10)), (1050, (Some 100, None))] =
     Inr \<lparr>ages = [700, 0], recv = [Some 7, Some (469 / 5)], sent = [Some 10, Some (2 / 3)]\<rparr>"
    using cold_start_one_further_point [OF c, of allFilled 1000 1000
        "[(300, (Some 7, Some 10)), (1050, (Some 100, None))]"]
    by (simp add: k' r' traf_samples_eq RRA_new_def allFilled_def py_int_def bucketAge_def
        ageOfTime_def removeNone_def interpolate_def)
  show ?thesis using a b by simp
qed

text \<open>
  The claim as the spec words it fails at a cold start with one archive bucket at age
  650: the output has two points, the bucket and a full-resolution point at age 0, and is
  not the one-point series of the drained bucket alone.
\<close>

theorem cold_start_extra_point:
  "mergeSeries 1000 (RRA_new 600) (RRA_new 600) [(350, (Some 100, Some 100))] =
     Inr \<lparr>ages = [650, 0], recv = [Some 100, None], sent = [Some 100, None]\<rparr>
   \<and> mergeSeries 1000 (RRA_new 600) (RRA_new 600) [(350, (Some 100, Some 100))] \<noteq>
     Inr \<lparr>ages = [650], recv = [Some 100], sent = [Some 100]\<rparr>"
proof -
  have c: "\<forall>i<length trafPlotDomain. RRA_getitem (RRA_new 600 :: rat RRA) i = None"
    by (simp add: RRA_getitem_def RRA_new_def)
  have p: "py_int 1000 = 1000" by (simp add: py_int_def)
  have r: "keptBuckets (of_int (py_int 1000)) 0 [(350, (Some 100, Some 100))] = []
         \<or> restBuckets (of_int (py_int 1000)) 0 [(350, (Some 100, Some 100))] = []"
    by (simp add: restBuckets_def bucketAge_def ageOfTime_def p)
  have d: "RRA_difference (RRA_new 600) 598 599 = None"
    by (simp add: RRA_difference_def RRA_getitem_def RRA_new_def)
  have "mergeSeries 1000 (RRA_new 600) (RRA_new 600) [(350, (Some 100, Some 100))] =
     Inr \<lparr>ages = [650, 0], recv = [Some 100, None], sent = [Some 100, None]\<rparr>"
    using mergeSeries_cold_plain [OF c _ _ r, of "RRA_new 600"]
    by (simp add: d p keptBuckets_def bucketAge_def ageOfTime_def removeNone_def, simp add: RRA_new_def)
  then show ?thesis by simp
qed

subsection \<open>Order of the emitted ages\<close>

lemma merge_ages:
  assumes bl: "boundaryLoop recvBuf [0..<length trafPlotDomain] None = (Some i, B)"
  shows "\<exists>out. mergeSeries clock recvBuf sentBuf fetched = Inr out
     \<and> ages out = map (bucketAge (of_int (py_int clock))) (keptBuckets (of_int (py_int clock)) B fetched)
                    @ drop i trafPlotDomain"
proof -
  obtain j where j: "j < 599"
    and bj: "boundaryLoop recvBuf [0..<length trafPlotDomain] None = (Some j, trafPlotDomain ! j)"
    using boundaryLoop_total by blast
  from bl bj have i: "i < 599" and B: "B = trafPlotDomain ! i" using j by auto
  have split: "drop i trafPlotDomain = B # drop (i + 1) trafPlotDomain"
    using i by (simp add: B Cons_nth_drop_Suc length_trafPlotDomain)
  show ?thesis
  proof (cases "keptBuckets (of_int (py_int clock)) B fetched = []
                 \<or> restBuckets (of_int (py_int clock)) B fetched = []")
    case True
    show ?thesis
      using mergeSeries_plain [OF bl True, of sentBuf] by simp
  next
    case False
    then obtain b bs' where r: "restBuckets (of_int (py_int clock)) B fetched = b # bs'"
      and k: "keptBuckets (of_int (py_int clock)) B fetched \<noteq> []"
      by (auto simp add: neq_Nil_conv)
    show ?thesis
      using mergeSeries_interp [OF bl k r, of sentBuf] by (simp add: split)
  qed
qed

lemma boundary_is_domain_entry:
  assumes bl: "boundaryLoop recvBuf [0..<length trafPlotDomain] None = (Some i, B)"
  shows "i < 599 \<and> B = 598 - of_nat i"
proof -
  obtain j where j: "j < 599"
    and bj: "boundaryLoop recvBuf [0..<length trafPlotDomain] None = (Some j, trafPlotDomain ! j)"
    using boundaryLoop_total by blast
  from bl bj j show ?thesis by (auto simp add: trafPlotDomain_nth)
qed

lemma drop_trafPlotDomain_le:
  assumes "i < 599" "y \<in> set (drop i trafPlotDomain)"
  shows "y \<le> 598 - of_nat i"
proof -
  from assms(2) obtain k where k: "k < length (drop i trafPlotDomain)" "y = drop i trafPlotDomain ! k"
    by (auto simp add: in_set_conv_nth)
  then have "i + k < 599" by (simp add: length_trafPlotDomain)
  then have "y = 598 - of_nat (i + k)"
    using k by (simp add: trafPlotDomain_nth length_trafPlotDomain)
  then show ?thesis by simp
qed

lemma kept_ages_descending:
  assumes "sorted_wrt (<) (map fst bs)"
  shows "sorted_wrt (>) (map (bucketAge now) (keptBuckets now B bs))"
proof -
  have "map fst bs = map fst (keptBuckets now B bs) @ map fst (restBuckets now B bs)"
    by (simp add: keptBuckets_def restBuckets_def flip: map_append)
  with assms have "sorted_wrt (<) (map fst (keptBuckets now B bs))"
    by (simp add: sorted_wrt_append)
  then have "sorted_wrt (\<lambda>a b. fst a < fst b) (keptBuckets now B bs)"
    by (simp add: sorted_wrt_map)
  then have "sorted_wrt (\<lambda>a b. bucketAge now a > bucketAge now b) (keptBuckets now B bs)"
    by (rule sorted_wrt_mono_rel [rotated]) (simp add: bucketAge_def ageOfTime_def)
  then show ?thesis by (simp add: sorted_wrt_map)
qed

text \<open>
  Claim C7, as the code has it. The plot domain of \<^verbatim>\<open>_setupPlots\<close> runs from age 598
  down to age 0, so the full-resolution ages that the merge appends, a suffix of the
  domain, are in strictly descending order: each successive full-resolution point has a
  smaller age than the one before it. When the archive yields its buckets in increasing
  timestamp order, the whole emitted age series is strictly descending.
\<close>

theorem series_ages_descending:
  assumes bl: "boundaryLoop recvBuf [0..<length trafPlotDomain] None = (Some i, B)"
    and now: "now = of_int (py_int clock)"
  shows "\<exists>out. mergeSeries clock recvBuf sentBuf fetched = Inr out
     \<and> ages out = map (bucketAge now) (keptBuckets now B fetched) @ drop i trafPlotDomain
     \<and> sorted_wrt (>) (drop i trafPlotDomain)
     \<and> (sorted_wrt (<) (map fst fetched) \<longrightarrow> sorted_wrt (>) (ages out))"
proof -
  obtain out where m: "mergeSeries clock recvBuf sentBuf fetched = Inr out"
    and a: "ages out = map (bucketAge now) (keptBuckets now B fetched) @ drop i trafPlotDomain"
    using merge_ages [OF bl, of clock sentBuf fetched] by (auto simp add: now)
  have iB: "i < 599" "B = 598 - of_nat i"
    using boundary_is_domain_entry [OF bl] by simp_all
  have full: "sorted_wrt (>) (drop i trafPlotDomain)"
    by (rule sorted_drop_trafPlotDomain)
  have whole: "sorted_wrt (>) (ages out)" if s: "sorted_wrt (<) (map fst fetched)"
  proof -
    have above: "x > B" if "x \<in> set (map (bucketAge now) (keptBuckets now B fetched))" for x
      using that unfolding keptBuckets_def by (auto dest: set_takeWhileD)
    have below: "y \<le> B" if "y \<in> set (drop i trafPlotDomain)" for y
      using drop_trafPlotDomain_le [OF iB(1) that] iB(2) by simp
    have "\<forall>x\<in>set (map (bucketAge now) (keptBuckets now B fetched)). \<forall>y\<in>set (drop i trafPlotDomain). x > y"
      using above below by fastforce
    then show ?thesis
      unfolding a sorted_wrt_append
      using kept_ages_descending [OF s, of now B] full by blast
  qed
  show ?thesis using m a full whole by blast
qed

theorem series_ages_descending_witness:
  "\<exists>out. mergeSeries 1000 allFilled allFilled [(300, (Some 7, None)), (350, (Some 100, Some 100))] = Inr out
     \<and> ages out = [700, 650] @ drop 0 trafPlotDomain
     \<and> sorted_wrt (>) (drop 0 trafPlotDomain)
     \<and> sorted_wrt (>) (ages out)"
  using series_ages_descending [OF allFilled_boundary, of 1000 1000 allFilled
      "[(300, (Some 7, None)), (350, (Some 100, Some 100))]"]
  by (simp add: py_int_def keptBuckets_def bucketAge_def ageOfTime_def)

text \<open>
  The claim as the spec words it fails: with every slot filled and an empty archive the
  emitted ages are the whole plot domain, whose first two entries are 598 and 597, so
  the second full-resolution point has a smaller age than the first.
\<close>

theorem full_resolution_ages_not_ascending:
  "mergeSeries 1000 allFilled allFilled [] =
     Inr \<lparr>ages = trafPlotDomain, recv = RRA_differences 0 allFilled, sent = RRA_differences 0 allFilled\<rparr>
   \<and> trafPlotDomain ! 0 = 598 \<and> trafPlotDomain ! 1 = 597
   \<and> \<not> sorted_wrt (<) trafPlotDomain"
proof -
  have "keptBuckets (of_int (py_int 1000)) 598 [] = [] \<or> restBuckets (of_int (py_int 1000)) 598 [] = []"
    by (simp add: keptBuckets_def)
  from mergeSeries_plain [OF allFilled_boundary this, of allFilled]
  have m: "mergeSeries 1000 allFilled allFilled [] =
     Inr \<lparr>ages = trafPlotDomain, recv = RRA_differences 0 allFilled, sent = RRA_differences 0 allFilled\<rparr>"
    by (simp add: keptBuckets_def)
  have n0: "trafPlotDomain ! 0 = 598" and n1: "trafPlotDomain ! 1 = 597"
    by (simp_all add: trafPlotDomain_nth)
  have "\<not> sorted_wrt (<) trafPlotDomain"
  proof
    assume "sorted_wrt (<) trafPlotDomain"
    then have "trafPlotDomain ! 0 < trafPlotDomain ! 1"
      by (rule sorted_wrt_nth_less) (simp_all add: length_trafPlotDomain)
    then show False using n0 n1 by simp
  qed
  then show ?thesis using m n0 n1 by blast
qed

subsection \<open>Repeating the merge\<close>

lemma mergeSeries_clock:
  "py_int clock1 = py_int clock2 \<Longrightarrow>
     mergeSeries clock1 r1 r2 fetched = mergeSeries clock2 r1 r2 fetched"
  by (simp add: mergeSeries_def)

text \<open>
  Claim C8, as the code has it. \<^verbatim>\<open>plotNetTotals\<close> reads the clock, in whole seconds,
  besides the ring buffers and the archive, and writes nothing but the two plot items.
  Invoked twice with no mutation in between and with the clock in the same whole second
  at both invocations, it hands each plot item the same series twice and leaves every
  other attribute as it was.
\<close>

theorem replot_same_second_identical:
  assumes "py_int clock1 = py_int clock2"
  shows "\<exists>out. mergeSeries clock1 (trafRecv s) (trafSent s) (trafRRD s) = Inr out
     \<and> plotNetTotals clock1 s =
         Returned (s\<lparr>trafRecvPlot := trafRecvPlot s @ [(ages out, recv out)],
                     trafSentPlot := trafSentPlot s @ [(ages out, sent out)]\<rparr>)
     \<and> plotNetTotals clock2 (state_of (plotNetTotals clock1 s)) =
         Returned (s\<lparr>trafRecvPlot := trafRecvPlot s @ [(ages out, recv out), (ages out, recv out)],
                     trafSentPlot := trafSentPlot s @ [(ages out, sent out), (ages out, sent out)]\<rparr>)"
proof -
  obtain out where m: "mergeSeries clock1 (trafRecv s) (trafSent s) (trafRRD s) = Inr out"
    using mergeSeries_returns by blast
  then have m2: "mergeSeries clock2 (trafRecv s) (trafSent s) (trafRRD s) = Inr out"
    using mergeSeries_clock [OF assms] by simp
  show ?thesis
    using m m2 by (simp add: plotNetTotals_def)
qed

lemma init_cold: "\<forall>i<length trafPlotDomain. RRA_getitem (RRA_new traf_samples :: rat RRA) i = None"
  by (simp add: RRA_getitem_def RRA_new_def)

lemma init_merge:
  assumes "py_int clock = c" and "c - 350 > 0"
  shows "mergeSeries clock (RRA_new traf_samples) (RRA_new traf_samples) [(350, (Some 100, Some 100))] =
     Inr \<lparr>ages = [of_int c - 350, 0], recv = [Some 100, None], sent = [Some 100, None]\<rparr>"
proof -
  have r: "keptBuckets (of_int (py_int clock)) 0 [(350, (Some 100, Some 100))] = []
         \<or> restBuckets (of_int (py_int clock)) 0 [(350, (Some 100, Some 100))] = []"
    using assms by (simp add: restBuckets_def bucketAge_def ageOfTime_def)
  have d: "RRA_difference (RRA_new traf_samples) 598 599 = None"
    by (simp add: RRA_difference_def RRA_getitem_def RRA_new_def)
  show ?thesis
    using mergeSeries_cold_plain [OF init_cold _ _ r, of "RRA_new traf_samples"] assms
    by (simp add: d keptBuckets_def bucketAge_def ageOfTime_def removeNone_def,
        simp add: RRA_new_def traf_samples_eq)
qed

theorem replot_same_second_identical_witness:
  "plotNetTotals (2001 / 2) (state_of (plotNetTotals 1000 (init [(350, (Some 100, Some 100))]))) =
     Returned ((init [(350, (Some 100, Some 100))])
       \<lparr>trafRecvPlot := [([650, 0], [Some 100, None]), ([650, 0], [Some 100, None])],
        trafSentPlot := [([650, 0], [Some 100, None]), ([650, 0], [Some 100, None])]\<rparr>)"
proof -
  have p: "py_int 1000 = py_int (2001 / 2)" by (simp add: py_int_def floor_eq_iff)
  have a: "mergeSeries 1000 (RRA_new traf_samples) (RRA_new traf_samples) [(350, (Some 100, Some 100))] =
     Inr \<lparr>ages = [650, 0], recv = [Some 100, None], sent = [Some 100, None]\<rparr>"
    using init_merge [of 1000 1000] by (simp add: py_int_def)
  from replot_same_second_identical [OF p, of "init [(350, (Some 100, Some 100))]"]
  obtain out where m: "mergeSeries 1000 (trafRecv (init [(350, (Some 100, Some 100))]))
        (trafSent (init [(350, (Some 100, Some 100))])) (trafRRD (init [(350, (Some 100, Some 100))])) = Inr out"
    and p2: "plotNetTotals (2001 / 2) (state_of (plotNetTotals 1000 (init [(350, (Some 100, Some 100))]))) =
         Returned ((init [(350, (Some 100, Some 100))])
           \<lparr>trafRecvPlot := trafRecvPlot (init [(350, (Some 100, Some 100))]) @ [(ages out, recv out), (ages out, recv out)],
            trafSentPlot := trafSentPlot (init [(350, (Some 100, Some 100))]) @ [(ages out, sent out), (ages out, sent out)]\<rparr>)"
    by blast
  from m a have out: "out = \<lparr>ages = [650, 0], recv = [Some 100, None], sent = [Some 100, None]\<rparr>"
    by (simp add: init_def)
  show ?thesis
    unfolding p2 by (simp add: out init_def)
qed

text \<open>
  The claim as the spec words it fails across a tick of the clock: from the initial
  window with one archive bucket at timestamp 350, invocations at clock 1000 and at
  clock 1001, with nothing mutated in between, plot the bucket at age 650 and then at
  age 651.
\<close>

theorem replot_next_second_differs:
  "trafRecvPlot (state_of (plotNetTotals 1001 (state_of (plotNetTotals 1000
       (init [(350, (Some 100, Some 100))]))))) =
     [([650, 0], [Some 100, None]), ([651, 0], [Some 100, None])]
   \<and> ([650, 0], [Some 100, None]) \<noteq> ([651, 0 :: rat], [Some 100, None :: rat option])"
proof -
  have a: "mergeSeries 1000 (RRA_new traf_samples) (RRA_new traf_samples) [(350, (Some 100, Some 100))] =
     Inr \<lparr>ages = [650, 0], recv = [Some 100, None], sent = [Some 100, None]\<rparr>"
    using init_merge [of 1000 1000] by (simp add: py_int_def)
  have b: "mergeSeries 1001 (RRA_new traf_samples) (RRA_new traf_samples) [(350, (Some 100, Some 100))] =
     Inr \<lparr>ages = [651, 0], recv = [Some 100, None], sent = [Some 100, None]\<rparr>"
    using init_merge [of 1001 1001] by (simp add: py_int_def)
  show ?thesis
    by (simp add: plotNetTotals_def init_def a b)
qed

subsection \<open>The scheduler\<close>

lemma plotNetTotals_returns:
  "\<exists>out. mergeSeries clock (trafRecv s) (trafSent s) (trafRRD s) = Inr out
     \<and> plotNetTotals clock s =
         Returned (s\<lparr>trafRecvPlot := trafRecvPlot s @ [(ages out, recv out)],
                     trafSentPlot := trafSentPlot s @ [(ages out, sent out)]\<rparr>)"
proof -
  obtain out where "mergeSeries clock (trafRecv s) (trafSent s) (trafRRD s) = Inr out"
    using mergeSeries_returns by blast
  then show ?thesis by (simp add: plotNetTotals_def)
qed

text \<open>
  Claim C2. Whatever the state in which a reply's error signal arrives, when
  \<^verbatim>\<open>netError\<close> has run the busy flag is \<open>False\<close> and the error text is published, and
  \<^verbatim>\<open>netError\<close> has issued no remote call and has not advanced the chain: the call
  trace, the chain index and the reply list are as before. The next call to be issued is
  step 0 of a new chain, by the next tick, and not a later step of the truncated cycle.
\<close>

theorem transport_error_truncates_chain:
  "busy (state_of (netError err_str clock s)) = False
   \<and> statusNetwork (state_of (netError err_str clock s)) = StatusText (''Network error: '' @ err_str)
   \<and> rpcCalls (state_of (netError err_str clock s)) = rpcCalls s
   \<and> chainIndex (state_of (netError err_str clock s)) = chainIndex s
   \<and> replies (state_of (netError err_str clock s)) = replies s
   \<and> rpcCalls (update (state_of (netError err_str clock s))) = rpcCalls s @ [(''getinfo'', [])]
   \<and> chainIndex (update (state_of (netError err_str clock s))) = 1"
proof -
  obtain s' where n: "netError err_str clock s = Returned s'"
    and s': "s' = s\<lparr>busy := False, statusNetwork := StatusText (''Network error: '' @ err_str),
                     trafRecvPlot := trafRecvPlot s', trafSentPlot := trafSentPlot s'\<rparr>"
    using plotNetTotals_returns
      [of clock "s\<lparr>busy := False, statusNetwork := StatusText (''Network error: '' @ err_str)\<rparr>"]
    by (auto simp add: netError_def)
  have f: "busy s' = False" "statusNetwork s' = StatusText (''Network error: '' @ err_str)"
    "rpcCalls s' = rpcCalls s" "chainIndex s' = chainIndex s" "replies s' = replies s"
    by (subst s', simp)+
  have u: "update s' = nextChainedRequest (s'\<lparr>chainIndex := 0, replies := [], busy := True\<rparr>)"
    using f(1) by (simp add: update_def startChain_def)
  have "rpcCalls (update s') = rpcCalls s @ [(''getinfo'', [])]" "chainIndex (update s') = 1"
    unfolding u by (simp_all add: nextChainedRequest_def commandChain_def f)
  then show ?thesis using f by (simp add: n)
qed

text \<open>
  Claim C9. \<^verbatim>\<open>netError\<close> runs the merge once, after unlocking: it returns, and each
  plot item has received exactly one more \<^verbatim>\<open>setData\<close>, carrying the merge of the
  current ring buffers and archive.
\<close>

theorem transport_error_replots_once:
  "\<exists>out. mergeSeries clock (trafRecv s) (trafSent s) (trafRRD s) = Inr out
     \<and> netError err_str clock s =
         Returned (s\<lparr>busy := False,
                     statusNetwork := StatusText (''Network error: '' @ err_str),
                     trafRecvPlot := trafRecvPlot s @ [(ages out, recv out)],
                     trafSentPlot := trafSentPlot s @ [(ages out, sent out)]\<rparr>)"
  using plotNetTotals_returns
    [of clock "s\<lparr>busy := False, statusNetwork := StatusText (''Network error: '' @ err_str)\<rparr>"]
  by (simp add: netError_def)

text \<open>
  Claim C4. A tick that fires while the busy flag is set changes nothing but the
  missed-sample counter, which grows by exactly one, and the label that shows it: the
  chain index, the replies and the call trace are untouched. A tick that fires while
  idle starts one chain: it resets the replies, locks, and issues the call of step 0.
\<close>

theorem tick_while_busy_counts_one_miss:
  "(busy s \<longrightarrow>
      update s = s\<lparr>missedSamples := missedSamples s + 1, statusMissedSamples := missedSamples s + 1\<rparr>)
   \<and> (\<not> busy s \<longrightarrow>
      update s = s\<lparr>chainIndex := 1,
                    replies := [\<lparr>r_method = ''getinfo'', r_args = [], r_slot = UpdateInfo\<rparr>],
                    busy := True,
                    rpcCalls := rpcCalls s @ [(''getinfo'', [])]\<rparr>)"
  by (simp add: update_def updateStatusMissedSamples_def startChain_def nextChainedRequest_def
      commandChain_def)

theorem tick_while_busy_counts_one_miss_witness:
  "update (init []) =
     (init [])\<lparr>chainIndex := 1,
               replies := [\<lparr>r_method = ''getinfo'', r_args = [], r_slot = UpdateInfo\<rparr>],
               busy := True, rpcCalls := [(''getinfo'', [])]\<rparr>
   \<and> update (update (init [])) =
     (init [])\<lparr>chainIndex := 1,
               replies := [\<lparr>r_method = ''getinfo'', r_args = [], r_slot = UpdateInfo\<rparr>],
               busy := True, rpcCalls := [(''getinfo'', [])],
               missedSamples := 1, statusMissedSamples := 1\<rparr>"
proof -
  have a: "update (init []) =
     (init [])\<lparr>chainIndex := 1,
               replies := [\<lparr>r_method = ''getinfo'', r_args = [], r_slot = UpdateInfo\<rparr>],
               busy := True, rpcCalls := [(''getinfo'', [])]\<rparr>"
    using tick_while_busy_counts_one_miss [of "init []"] by (simp add: init_def)
  have b: "busy (update (init []))" by (simp add: a)
  show ?thesis
    using tick_while_busy_counts_one_miss [of "update (init [])"] b a by (simp add: init_def)
qed

subsection \<open>The block-arrival observer\<close>

lemma RRA_update_new:
  "RRA_update t5 (RRA_update t2 (RRA_new 24)) = Some t5 # Some t2 # replicate 22 None"
  by (simp add: RRA_update_def RRA_new_def eval_nat_numeral)

text \<open>
  Claim C5. For a \<^verbatim>\<open>getinfo\<close> payload with both keys: the first observed block count
  only records the baseline; afterwards a count strictly above the last-seen count
  becomes the last-seen count and the clock reading is appended to the block-arrival
  window; an equal or smaller count changes nothing. Fed the counts 100, 100, 101, 101,
  99, 102 at times \<open>t0\<close> to \<open>t5\<close> from the initial window, the observer has recorded
  arrivals at \<open>t2\<close> and \<open>t5\<close> only, and the last-seen count is 102.
\<close>

theorem block_arrival_observer:
  "(info ''connections'' = Some connections \<and> info ''blocks'' = Some blocks \<and> lastBlockCount s = None
      \<longrightarrow> updateInfo (info, clock) s = Returned (s\<lparr>lastBlockCount := Some blocks\<rparr>))
   \<and> (info ''connections'' = Some connections \<and> info ''blocks'' = Some blocks
        \<and> lastBlockCount s = Some lastSeen \<and> blocks > lastSeen
      \<longrightarrow> updateInfo (info, clock) s =
            Returned (s\<lparr>lastBlockCount := Some blocks,
                        blockRecvTimes := RRA_update clock (blockRecvTimes s)\<rparr>))
   \<and> (info ''connections'' = Some connections \<and> info ''blocks'' = Some blocks
        \<and> lastBlockCount s = Some lastSeen \<and> blocks \<le> lastSeen
      \<longrightarrow> updateInfo (info, clock) s = Returned s)
   \<and> observe c [(100, t0), (100, t1), (101, t2), (101, t3), (99, t4), (102, t5)] (init rrd) =
       (init rrd)\<lparr>lastBlockCount := Some 102,
                  blockRecvTimes := RRA_update t5 (RRA_update t2 (RRA_new 24))\<rparr>
   \<and> RRA_update t5 (RRA_update t2 (RRA_new 24)) = Some t5 # Some t2 # replicate 22 None"
  by (simp add: updateInfo_def getinfoReply_def init_def RRA_update_new)

theorem block_arrival_observer_witness:
  "updateInfo (getinfoReply 8 100, 5) (init []) = Returned ((init [])\<lparr>lastBlockCount := Some 100\<rparr>)
   \<and> updateInfo (getinfoReply 8 101, 6) ((init [])\<lparr>lastBlockCount := Some 100\<rparr>) =
       Returned ((init [])\<lparr>lastBlockCount := Some 101, blockRecvTimes := Some 6 # replicate 23 None\<rparr>)
   \<and> updateInfo (getinfoReply 8 99, 7) ((init [])\<lparr>lastBlockCount := Some 100\<rparr>) =
       Returned ((init [])\<lparr>lastBlockCount := Some 100\<rparr>)
   \<and> blockRecvTimes (observe 8 [(100, 10), (100, 11), (101, 12), (101, 13), (99, 14), (102, 15)] (init []))
       = Some 15 # Some 12 # replicate 22 None"
  using block_arrival_observer [of "getinfoReply 8 100" 8 100 "init []" 5 0 0 0 0 0 0 0 0 "[]"]
    block_arrival_observer [of "getinfoReply 8 101" 8 101 "(init [])\<lparr>lastBlockCount := Some 100\<rparr>" 6 100 0 0 0 0 0 0 0 "[]"]
    block_arrival_observer [of "getinfoReply 8 99" 8 99 "(init [])\<lparr>lastBlockCount := Some 100\<rparr>" 7 100 8 10 11 12 13 14 15 "[]"]
  by (simp add: getinfoReply_def init_def RRA_update_def RRA_new_def eval_nat_numeral)

subsection \<open>Faults in response handlers\<close>

text \<open>
  Claim C3. When the response handler of a step raises, after whatever state changes it
  made, the wrapper does not raise: it prints the traceback and runs
  \<^verbatim>\<open>nextChainedRequest\<close> on the state the handler left. The chain index then points
  at the step after the one whose reply was handled, so either the call of that next
  step is issued, or, past the last step, the scheduler unlocks and publishes the
  round-trip times.
\<close>

theorem handler_fault_does_not_stop_chain:
  assumes "responseHandler data s = Raised e s'"
  shows "(chainIndex s' < length commandChain \<longrightarrow>
            handlerWrapper responseHandler data s =
              s'\<lparr>tracebacks := tracebacks s' @ [e],
                 rpcCalls := rpcCalls s' @ [(fst (commandChain ! chainIndex s'),
                                            fst (snd (commandChain ! chainIndex s')))],
                 replies := replies s' @ [\<lparr>r_method = fst (commandChain ! chainIndex s'),
                                           r_args = fst (snd (commandChain ! chainIndex s')),
                                           r_slot = snd (snd (commandChain ! chainIndex s'))\<rparr>],
                 chainIndex := chainIndex s' + 1\<rparr>)
       \<and> (chainIndex s' \<ge> length commandChain \<longrightarrow>
            handlerWrapper responseHandler data s =
              s'\<lparr>tracebacks := tracebacks s' @ [e], busy := False,
                 statusNetwork := StatusRTT (replies s')\<rparr>)"
  using assms
  by (simp add: handlerWrapper_def nextChainedRequest_def split: prod.split)

lemma cold_empty_merge:
  "mergeSeries clock (RRA_new traf_samples) (RRA_new traf_samples) [] =
     Inr \<lparr>ages = [0], recv = [None], sent = [None]\<rparr>"
proof -
  have r: "keptBuckets (of_int (py_int clock)) 0 [] = [] \<or> restBuckets (of_int (py_int clock)) 0 [] = []"
    by (simp add: keptBuckets_def)
  have d: "RRA_difference (RRA_new traf_samples) 598 599 = None"
    by (simp add: RRA_difference_def RRA_getitem_def RRA_new_def)
  show ?thesis
    using mergeSeries_cold_plain [OF init_cold _ _ r, of "RRA_new traf_samples"]
    by (simp add: d keptBuckets_def, simp add: RRA_new_def traf_samples_eq)
qed

theorem handler_fault_does_not_stop_chain_witness:
  "handlerWrapper updateInfo (Map.empty, 1000) (update (init [])) =
     (update (init []))
       \<lparr>tracebacks := [KeyError ''connections''],
        rpcCalls := [(''getinfo'', []), (''getmininginfo'', [])],
        replies := [\<lparr>r_method = ''getinfo'', r_args = [], r_slot = UpdateInfo\<rparr>,
                    \<lparr>r_method = ''getmininginfo'', r_args = [], r_slot = UpdateMiningInfo\<rparr>],
        chainIndex := 2\<rparr>
   \<and> handlerWrapper updateMemPool (1000, Some TypeError) ((update (init []))\<lparr>chainIndex := 4\<rparr>) =
     (update (init []))
       \<lparr>chainIndex := 4,
        trafRecvPlot := [([0], [None])], trafSentPlot := [([0], [None])],
        tracebacks := [TypeError], busy := False,
        statusNetwork := StatusRTT [\<lparr>r_method = ''getinfo'', r_args = [], r_slot = UpdateInfo\<rparr>]\<rparr>"
proof -
  have u: "update (init []) =
     (init [])\<lparr>chainIndex := 1,
               replies := [\<lparr>r_method = ''getinfo'', r_args = [], r_slot = UpdateInfo\<rparr>],
               busy := True, rpcCalls := [(''getinfo'', [])]\<rparr>"
    by (simp add: update_def startChain_def nextChainedRequest_def commandChain_def init_def)
  have a: "updateInfo (Map.empty, 1000) (update (init [])) = Raised (KeyError ''connections'') (update (init []))"
    by (simp add: updateInfo_def)
  have b: "updateMemPool (1000, Some TypeError) ((update (init []))\<lparr>chainIndex := 4\<rparr>) =
      Raised TypeError ((update (init []))\<lparr>chainIndex := 4,
        trafRecvPlot := [([0], [None])], trafSentPlot := [([0], [None])]\<rparr>)"
    unfolding u by (simp add: updateMemPool_def plotNetTotals_def init_def cold_empty_merge)
  note w = handler_fault_does_not_stop_chain [where responseHandler = updateInfo, OF a]
    handler_fault_does_not_stop_chain [where responseHandler = updateMemPool, OF b]
  show ?thesis
    using w unfolding u by (simp add: init_def commandChain_def)
qed

subsection \<open>The missed-sample counter\<close>

lemma missedSamples_nextChainedRequest: "missedSamples (nextChainedRequest s) = missedSamples s"
  by (simp add: nextChainedRequest_def split: prod.split)

lemma missedSamples_startChain: "missedSamples (startChain s) = missedSamples s"
  by (simp add: startChain_def missedSamples_nextChainedRequest)

lemma missedSamples_plotNetTotals: "missedSamples (state_of (plotNetTotals clock s)) = missedSamples s"
  by (simp add: plotNetTotals_def split: sum.split)

lemma missedSamples_netError: "missedSamples (state_of (netError err_str clock s)) = missedSamples s"
  by (simp add: netError_def missedSamples_plotNetTotals)

lemma missedSamples_updateInfo: "missedSamples (state_of (updateInfo d s)) = missedSamples s"
  by (simp add: updateInfo_def split: prod.split option.split)

lemma missedSamples_updateMiningInfo: "missedSamples (state_of (updateMiningInfo d s)) = missedSamples s"
  by (simp add: updateMiningInfo_def split: option.split)

lemma missedSamples_updateNetTotals: "missedSamples (state_of (updateNetTotals d s)) = missedSamples s"
  by (simp add: updateNetTotals_def Let_def split: prod.split option.split)

lemma missedSamples_updateMemPool: "missedSamples (state_of (updateMemPool d s)) = missedSamples s"
proof -
  obtain clock chartError where d: "d = (clock, chartError)" by (cases d)
  show ?thesis
    using missedSamples_plotNetTotals [of clock s]
    by (cases "plotNetTotals clock s") (simp_all add: updateMemPool_def d split: option.split)
qed

lemma missedSamples_handlerWrapper:
  "missedSamples (handlerWrapper h d s) = missedSamples (state_of (h d s))"
  by (cases "h d s") (simp_all add: handlerWrapper_def missedSamples_nextChainedRequest)

lemma missedSamples_step:
  "missedSamples (step e s) = (if e = Tick \<and> busy s then missedSamples s + 1 else missedSamples s)"
  by (cases e)
     (simp_all add: update_def updateStatusMissedSamples_def missedSamples_startChain
        missedSamples_handlerWrapper missedSamples_updateInfo missedSamples_updateMiningInfo
        missedSamples_updateNetTotals missedSamples_updateMemPool missedSamples_netError)

lemma missedSamples_run: "missedSamples s \<le> missedSamples (run es s)"
proof (induction es arbitrary: s)
  case Nil
  show ?case by simp
next
  case (Cons e es)
  have "missedSamples s \<le> missedSamples (step e s)"
    by (simp add: missedSamples_step)
  also have "\<dots> \<le> missedSamples (run es (step e s))"
    by (rule Cons.IH)
  finally show ?case by simp
qed

text \<open>
  Claim C10. The missed-sample counter is 0 in the initial window. An event changes it
  only when it is a tick that finds the busy flag set, and then adds exactly one; so
  along every run of the event loop it never decreases. Starting a chain, continuing or
  completing a chain, and handling a transport error leave it as it is.
\<close>

theorem missed_samples_never_decrease:
  "missedSamples (init rrd) = 0
   \<and> missedSamples (step e s) = (if e = Tick \<and> busy s then missedSamples s + 1 else missedSamples s)
   \<and> missedSamples s \<le> missedSamples (run es s)
   \<and> 0 \<le> missedSamples (run es (init rrd))
   \<and> missedSamples (startChain s) = missedSamples s
   \<and> missedSamples (nextChainedRequest s) = missedSamples s
   \<and> missedSamples (state_of (netError err_str clock s)) = missedSamples s"
proof -
  have i: "missedSamples (init rrd) = 0" by (simp add: init_def)
  have "0 \<le> missedSamples (run es (init rrd))"
    using missedSamples_run [of "init rrd" es] by (simp add: i)
  then show ?thesis
    using i
    by (simp add: missedSamples_step missedSamples_run missedSamples_startChain
        missedSamples_nextChainedRequest missedSamples_netError)
qed

end
